theory Spec2Isabelle
  imports
    Complex_Main
    "HOL-Library.AList"
    "HOL-Library.Char_ord"
    "HOL-Library.List_Lexorder"
    "HOL-Library.Log_Nat"
    "HOL-Library.Option_ord"
    "HOL-Library.Multiset"
begin

section \<open>Python values shared by both programs\<close>

text \<open>
  A Python float is an IEEE 754 binary64 number and is represented by its exact value, a
  rational. Arithmetic on floats computes the exact result and rounds it to the nearest
  binary64 number, ties to the even significand (\<open>to_double\<close>), subnormal numbers
  included. Overflow to infinity is not modelled: every float of these programs is a
  percentage or a temperature. Python's unbounded integers are \<open>int\<close>.

  \<open>round(x, n)\<close> rounds the exact value of the float \<open>x\<close> to \<open>n\<close> decimals, ties to
  even, and returns the float nearest to that decimal. \<open>py_round\<close> gives the decimal
  itself, which is what \<open>repr\<close> and JSON print for that float; a later operation reads it
  back through \<open>to_double\<close>.
\<close>

datatype py_error = KeyError | IndexError | ZeroDivisionError

definition round_half_even :: "rat \<Rightarrow> int" where
  "round_half_even x =
     (let f = \<lfloor>x\<rfloor>; d = x - of_int f
      in if d < 1 / 2 then f
         else if 1 / 2 < d then f + 1
         else if even f then f else f + 1)"

definition pow2 :: "int \<Rightarrow> rat" where
  "pow2 k = (if 0 \<le> k then 2 ^ nat k else 1 / 2 ^ nat (- k))"

definition floor_log2 :: "rat \<Rightarrow> int" where
  \<comment> \<open>for \<open>a > 0\<close>, the exponent \<open>e\<close> with \<open>2 ^ e \<le> a < 2 ^ (e + 1)\<close>\<close>
  "floor_log2 a =
     (let (p, q) = quotient_of a; d = bitlen p - bitlen q
      in if pow2 d \<le> a then d else d - 1)"

definition to_double :: "rat \<Rightarrow> rat" where
  \<comment> \<open>53 significant bits, least exponent -1022\<close>
  "to_double x =
     (if x = 0 then 0
      else let q = max (floor_log2 \<bar>x\<bar>) (- 1022) - 52
           in of_int (round_half_even (x / pow2 q)) * pow2 q)"

definition fadd :: "rat \<Rightarrow> rat \<Rightarrow> rat" where
  "fadd x y = to_double (x + y)"

definition fmul :: "rat \<Rightarrow> rat \<Rightarrow> rat" where
  "fmul x y = to_double (x * y)"

definition fdiv :: "rat \<Rightarrow> rat \<Rightarrow> rat" where
  \<comment> \<open>the divisor is not zero; an \<open>int / int\<close> of Python is the correctly rounded
      quotient of the two integers\<close>
  "fdiv x y = to_double (x / y)"

definition py_round :: "rat \<Rightarrow> nat \<Rightarrow> rat" where
  "py_round x n = of_int (round_half_even (x * 10 ^ n)) / 10 ^ n"

definition py_truediv :: "int \<Rightarrow> int \<Rightarrow> py_error + rat" where
  "py_truediv a b =
     (if b = 0 then Inl ZeroDivisionError else Inr (fdiv (of_int a) (of_int b)))"

section \<open>sensores.py: the sensor simulator\<close>

subsection \<open>Formatting of bay identifiers\<close>

fun str_nat :: "nat \<Rightarrow> string" where
  "str_nat n =
     (if n < 10 then [''0123456789'' ! n]
      else str_nat (n div 10) @ [''0123456789'' ! (n mod 10)])"

declare str_nat.simps [simp del]

definition str_int :: "int \<Rightarrow> string" where
  \<comment> \<open>\<open>f"{i}"\<close>\<close>
  "str_int i = (if i < 0 then CHR ''-'' # str_nat (nat (- i)) else str_nat (nat i))"

definition zfill :: "nat \<Rightarrow> string \<Rightarrow> string" where
  "zfill w s = replicate (w - length s) CHR ''0'' @ s"

definition fmt_03d :: "int \<Rightarrow> string" where
  \<comment> \<open>\<open>f"{i:03d}"\<close>: the sign counts towards the width of three.\<close>
  "fmt_03d i =
     (if i < 0 then CHR ''-'' # zfill 2 (str_nat (nat (- i))) else zfill 3 (str_nat (nat i)))"

definition make_bay_id :: "int \<Rightarrow> int \<Rightarrow> string" where
  \<comment> \<open>\<open>f"L{level}-A-{bay:03d}"\<close>\<close>
  "make_bay_id lvl b = ''L'' @ str_int lvl @ ''-A-'' @ fmt_03d b"

subsection \<open>State\<close>

record bay =
  bay_id :: string
  parking_id :: string
  level :: string
  occupied :: bool
  temperature_c :: rat
  battery_pct :: int

text \<open>
  \<open>self.bays\<close> is a Python dict, which keeps insertion order: an association list with
  \<open>AList.update\<close> (replace in place, else append) and \<open>map_of\<close> for lookup.
\<close>

record simulator =
  sim_parking_id :: string
  levels :: int
  bays_per_level :: int
  bays :: "(string \<times> bay) list"

text \<open>
  The three random draws \<open>_initialize_bays\<close> makes for one bay:
  \<open>random.choice([True, False])\<close>, \<open>random.uniform(18.0, 28.0)\<close>, \<open>random.randint(60, 100)\<close>.
\<close>

record init_draw =
  draw_occupied :: bool
  draw_uniform :: rat
  draw_randint :: int

definition valid_init_draw :: "init_draw \<Rightarrow> bool" where
  "valid_init_draw d \<longleftrightarrow>
     18 \<le> draw_uniform d \<and> draw_uniform d \<le> 28 \<and> 60 \<le> draw_randint d \<and> draw_randint d \<le> 100"

definition new_bay :: "string \<Rightarrow> int \<Rightarrow> int \<Rightarrow> init_draw \<Rightarrow> bay" where
  "new_bay pid lvl b d =
     \<lparr> bay_id = make_bay_id lvl b,
       parking_id = pid,
       level = ''L'' @ str_int lvl,
       occupied = draw_occupied d,
       temperature_c = py_round (to_double (draw_uniform d)) 1,
       battery_pct = draw_randint d \<rparr>"

definition initialize_bays ::
  "string \<Rightarrow> int \<Rightarrow> int \<Rightarrow> (int \<Rightarrow> int \<Rightarrow> init_draw) \<Rightarrow> (string \<times> bay) list" where
  "initialize_bays pid lv bpl rnd =
     foldl (\<lambda>acc lvl.
        foldl (\<lambda>acc b. AList.update (make_bay_id lvl b) (new_bay pid lvl b (rnd lvl b)) acc)
          acc [1..bpl])
       [] [1..lv]"

definition new_simulator ::
  "string \<Rightarrow> int \<Rightarrow> int \<Rightarrow> (int \<Rightarrow> int \<Rightarrow> init_draw) \<Rightarrow> simulator" where
  \<comment> \<open>\<open>ParkingSensorSimulator.__init__\<close>\<close>
  "new_simulator pid lv bpl rnd =
     \<lparr> sim_parking_id = pid, levels = lv, bays_per_level = bpl,
       bays = initialize_bays pid lv bpl rnd \<rparr>"

subsection \<open>Operations\<close>

record event =
  ev_bay_id :: string
  ev_parking_id :: string
  ev_level :: string
  ev_occupied :: bool
  ev_last_event_ts :: string
  ev_temperature_c :: rat
  ev_battery_pct :: int
  ev_updated_at :: string

definition drift :: "bay \<Rightarrow> rat \<Rightarrow> rat \<Rightarrow> bay" where
  \<comment> \<open>The two mutations of \<open>generate_event\<close>; \<open>u\<close> is \<open>random.uniform(-0.5, 0.5)\<close>
      and \<open>r\<close> is \<open>random.random()\<close>.\<close>
  "drift b u r =
     (let b1 = b\<lparr>temperature_c :=
                   py_round (fadd (to_double (temperature_c b)) (to_double u)) 1\<rparr>;
          b2 = b1\<lparr>temperature_c := max 15 (min 35 (temperature_c b1))\<rparr>
      in if r < 1 / 10 then b2\<lparr>battery_pct := max 20 (battery_pct b2 - 1)\<rparr> else b2)"

definition snapshot :: "bay \<Rightarrow> string \<Rightarrow> event" where
  "snapshot b now =
     \<lparr> ev_bay_id = bay_id b,
       ev_parking_id = parking_id b,
       ev_level = level b,
       ev_occupied = occupied b,
       ev_last_event_ts = now,
       ev_temperature_c = temperature_c b,
       ev_battery_pct = battery_pct b,
       ev_updated_at = now \<rparr>"

definition generate_event ::
  "simulator \<Rightarrow> string \<Rightarrow> string \<Rightarrow> rat \<Rightarrow> rat \<Rightarrow> py_error + (event \<times> simulator)" where
  "generate_event s bid now u r =
     (case map_of (bays s) bid of
        None \<Rightarrow> Inl KeyError
      | Some b \<Rightarrow>
          let b' = drift b u r
          in Inr (snapshot b' now, s\<lparr>bays := AList.update bid b' (bays s)\<rparr>))"

definition random_choice :: "'a list \<Rightarrow> nat \<Rightarrow> py_error + 'a" where
  \<comment> \<open>\<open>random.choice(seq)\<close>: \<open>seq[randbelow(len(seq))]\<close>, IndexError on an empty
      sequence; \<open>k\<close> is the generator's raw draw.\<close>
  "random_choice xs k = (if xs = [] then Inl IndexError else Inr (xs ! (k mod length xs)))"

definition simulate_vehicle_movement :: "simulator \<Rightarrow> nat \<Rightarrow> py_error + (string \<times> simulator)" where
  "simulate_vehicle_movement s k =
     (case random_choice (map fst (bays s)) k of
        Inl e \<Rightarrow> Inl e
      | Inr bid \<Rightarrow>
          (case map_of (bays s) bid of
             None \<Rightarrow> Inl KeyError
           | Some b \<Rightarrow>
               Inr (bid, s\<lparr>bays := AList.update bid (b\<lparr>occupied := \<not> occupied b\<rparr>) (bays s)\<rparr>)))"

record parking_status =
  ps_total_bays :: int
  ps_occupied :: int
  ps_free :: int
  ps_occupancy_rate :: rat

definition get_parking_status :: "simulator \<Rightarrow> py_error + parking_status" where
  "get_parking_status s =
     (let total = int (length (bays s));
          occ = int (length (filter (\<lambda>(k, b). occupied b) (bays s)));
          free = total - occ
      in case py_truediv occ total of
           Inl e \<Rightarrow> Inl e
         | Inr q \<Rightarrow>
             Inr \<lparr> ps_total_bays = total, ps_occupied = occ, ps_free = free,
                   ps_occupancy_rate = py_round (fmul q 100) 1 \<rparr>)"

subsection \<open>Reachable simulator states\<close>

inductive reachable :: "simulator \<Rightarrow> bool" where
  init: "(\<And>l b. valid_init_draw (rnd l b)) \<Longrightarrow> reachable (new_simulator pid lv bpl rnd)"
| event: "reachable s \<Longrightarrow> generate_event s bid now u r = Inr (ev, s') \<Longrightarrow> reachable s'"
| movement: "reachable s \<Longrightarrow> simulate_vehicle_movement s k = Inr (bid, s') \<Longrightarrow> reachable s'"

section \<open>sensores.py: the event publisher\<close>

text \<open>
  The Kafka client is an external collaborator. What \<open>publish_event\<close> does with it is
  decided by Python's \<open>try\<close>/\<open>except KafkaError\<close>: an exception is caught when its class
  derives from \<open>KafkaError\<close> and propagates otherwise. The producer is a parameter holding
  the outcome of \<open>send\<close> (which runs the \<open>value_serializer\<close>) and of \<open>future.get\<close>.
\<close>

datatype py_exception =
    KafkaError string
  | OtherException string

record 'e producer =
  send :: "string \<Rightarrow> 'e \<Rightarrow> py_exception + nat"
  future_get :: "nat \<Rightarrow> nat \<Rightarrow> py_exception + unit"

record 'e kafka_publisher =
  topic :: string
  the_producer :: "'e producer"

definition publish_event :: "'e kafka_publisher \<Rightarrow> 'e \<Rightarrow> py_exception + bool" where
  "publish_event p ev =
     (case (case send (the_producer p) (topic p) ev of
              Inl x \<Rightarrow> Inl x
            | Inr future \<Rightarrow> future_get (the_producer p) future 10) of
        Inr record_metadata \<Rightarrow> Inr True
      | Inl (KafkaError e) \<Rightarrow> Inr False
      | Inl (OtherException e) \<Rightarrow> Inl (OtherException e))"

section \<open>app.py: the query service\<close>

subsection \<open>The store\<close>

text \<open>
  A document of the \<open>bays\<close> collection. The ingestion path is outside the repository, and
  \<open>pruebas.py\<close> inserts a bay without \<open>metrics\<close>, so the two metrics (and the level) may be
  missing from a document.
\<close>

record bay_doc =
  doc_bay_id :: string
  doc_level :: "string option"
  doc_occupied :: bool
  doc_temperature_c :: "rat option"
  doc_battery_pct :: "int option"

text \<open>
  The module-level \<open>db\<close> is \<open>None\<close> when the connection failed at start-up. Otherwise each
  command either raises (\<open>Inl\<close> the message) or answers from the collection's documents.
\<close>

record database =
  ping :: "string + unit"
  bays_coll :: "string + bay_doc list"
  events_coll :: "string + event list"

definition count_documents :: "string + 'a list \<Rightarrow> ('a \<Rightarrow> bool) \<Rightarrow> string + nat" where
  "count_documents coll q = map_sum id (\<lambda>ds. length (filter q ds)) coll"

subsection \<open>Health check\<close>

record health_body =
  hb_status :: string
  hb_database :: "string option"
  hb_total_bays :: "nat option"
  hb_total_events :: "nat option"
  hb_error :: "string option"
  hb_timestamp :: string

definition health_check :: "database option \<Rightarrow> string \<Rightarrow> health_body \<times> nat" where
  "health_check db now =
     (case db of
        None \<Rightarrow>
          (\<lparr> hb_status = ''unhealthy'', hb_database = Some ''disconnected'',
             hb_total_bays = None, hb_total_events = None, hb_error = None,
             hb_timestamp = now \<rparr>, 503)
      | Some d \<Rightarrow>
          (case (case ping d of
                   Inl e \<Rightarrow> Inl e
                 | Inr _ \<Rightarrow>
                     (case count_documents (bays_coll d) (\<lambda>_. True) of
                        Inl e \<Rightarrow> Inl e
                      | Inr total_bays \<Rightarrow>
                          (case count_documents (events_coll d) (\<lambda>_. True) of
                             Inl e \<Rightarrow> Inl e
                           | Inr total_events \<Rightarrow> Inr (total_bays, total_events)))) of
             Inr (total_bays, total_events) \<Rightarrow>
               (\<lparr> hb_status = ''healthy'', hb_database = Some ''connected'',
                  hb_total_bays = Some total_bays, hb_total_events = Some total_events,
                  hb_error = None, hb_timestamp = now \<rparr>, 200)
           | Inl e \<Rightarrow>
               (\<lparr> hb_status = ''unhealthy'', hb_database = None,
                  hb_total_bays = None, hb_total_events = None, hb_error = Some e,
                  hb_timestamp = now \<rparr>, 503)))"

subsection \<open>Aggregate statistics\<close>

text \<open>
  The \<open>$group\<close> stage followed by \<open>$sort\<close> on \<open>_id\<close>, as MongoDB documents them: one group
  per distinct value of \<open>level\<close> (a missing level groups under null, which sorts first);
  \<open>$avg\<close> ignores documents without the field and is null when no document of the group
  has it, and otherwise is the sum divided by the count as a double (the sum is taken
  exactly here); the aggregation operator \<open>$lt\<close> orders a missing value below every
  number.
\<close>

record level_group =
  g_id :: "string option"
  g_total :: nat
  g_occupied :: nat
  g_free :: nat
  g_avg_temperature :: "rat option"
  g_avg_battery :: "rat option"
  g_low_battery_count :: nat

definition mongo_avg :: "rat option list \<Rightarrow> rat option" where
  "mongo_avg vs =
     (let xs = concat (map (\<lambda>v. case v of None \<Rightarrow> [] | Some x \<Rightarrow> [x]) vs)
      in if xs = [] then None else Some (fdiv (sum_list xs) (of_nat (length xs))))"

definition group_of :: "bay_doc list \<Rightarrow> string option \<Rightarrow> level_group" where
  "group_of ds k =
     (let g = filter (\<lambda>d. doc_level d = k) ds
      in \<lparr> g_id = k,
           g_total = length g,
           g_occupied = length (filter doc_occupied g),
           g_free = length (filter (\<lambda>d. \<not> doc_occupied d) g),
           g_avg_temperature = mongo_avg (map doc_temperature_c g),
           g_avg_battery = mongo_avg (map (map_option of_int \<circ> doc_battery_pct) g),
           g_low_battery_count =
             length (filter (\<lambda>d. case doc_battery_pct d of None \<Rightarrow> True | Some b \<Rightarrow> b < 20) g) \<rparr>)"

definition aggregate_by_level :: "bay_doc list \<Rightarrow> level_group list" where
  "aggregate_by_level ds = map (group_of ds) (sort (remdups (map doc_level ds)))"

record level_stats =
  ls_level :: "string option"
  ls_total :: nat
  ls_occupied :: nat
  ls_free :: nat
  ls_occupancy_rate :: rat
  ls_avg_temperature :: "rat option"
  ls_avg_battery :: "rat option"
  ls_low_battery_sensors :: nat

definition truthy :: "rat option \<Rightarrow> bool" where
  \<comment> \<open>Python's truth value of a number or \<open>None\<close>: \<open>None\<close> and zero are false.\<close>
  "truthy v = (case v of None \<Rightarrow> False | Some x \<Rightarrow> x \<noteq> 0)"

definition round_if_truthy :: "rat option \<Rightarrow> rat option" where
  \<comment> \<open>\<open>round(v, 1) if v else None\<close>\<close>
  "round_if_truthy v = (if truthy v then map_option (\<lambda>x. py_round x 1) v else None)"

definition format_level :: "level_group \<Rightarrow> level_stats" where
  "format_level g =
     \<lparr> ls_level = g_id g,
       ls_total = g_total g,
       ls_occupied = g_occupied g,
       ls_free = g_free g,
       ls_occupancy_rate =
         (if g_total g > 0
          then py_round (fmul (fdiv (of_nat (g_occupied g)) (of_nat (g_total g))) 100) 2
          else 0),
       ls_avg_temperature = round_if_truthy (g_avg_temperature g),
       ls_avg_battery = round_if_truthy (g_avg_battery g),
       ls_low_battery_sensors = g_low_battery_count g \<rparr>"

record stats =
  st_total :: nat
  st_occupied :: nat
  st_free :: int
  st_occupancy_rate :: rat
  st_levels :: "level_stats list"
  st_timestamp :: string

text \<open>
  The three shapes of body the data endpoints answer with: \<open>{"error": ...}\<close> with 503,
  the success document with 200, \<open>{"success": False, "error": ...}\<close> with 500.
\<close>

datatype 'a body = Unavailable string | Success 'a | Failure string

definition get_stats :: "database option \<Rightarrow> string \<Rightarrow> stats body \<times> nat" where
  "get_stats db now =
     (case db of
        None \<Rightarrow> (Unavailable ''Database connection not available'', 503)
      | Some d \<Rightarrow>
          (case count_documents (bays_coll d) (\<lambda>_. True) of
             Inl e \<Rightarrow> (Failure e, 500)
           | Inr total_n \<Rightarrow>
               (case count_documents (bays_coll d) doc_occupied of
                  Inl e \<Rightarrow> (Failure e, 500)
                | Inr occ \<Rightarrow>
                    (case map_sum id aggregate_by_level (bays_coll d) of
                       Inl e \<Rightarrow> (Failure e, 500)
                     | Inr by_level \<Rightarrow>
                         (Success
                            \<lparr> st_total = total_n,
                              st_occupied = occ,
                              st_free = int total_n - int occ,
                              st_occupancy_rate =
                                (if total_n > 0
                                 then py_round (fmul (fdiv (of_nat occ) (of_nat total_n)) 100) 2
                                 else 0),
                              st_levels = map format_level by_level,
                              st_timestamp = now \<rparr>, 200)))))"

subsection \<open>Low-battery bays\<close>

definition find_low_battery :: "bay_doc list \<Rightarrow> int \<Rightarrow> bay_doc list" where
  \<comment> \<open>\<open>find({"metrics.battery_pct": {"$lt": threshold}}).sort('metrics.battery_pct', 1)\<close>:
      the query operator matches only documents that have the field.\<close>
  "find_low_battery ds threshold =
     sort_key doc_battery_pct
       (filter (\<lambda>d. case doc_battery_pct d of None \<Rightarrow> False | Some b \<Rightarrow> b < threshold) ds)"

fun select_by_battery :: "(int \<Rightarrow> bool) \<Rightarrow> bay_doc list \<Rightarrow> string + bay_doc list" where
  \<comment> \<open>\<open>[b for b in bays if p(b['metrics']['battery_pct'])]\<close>; the subscript raises KeyError
      on a document without the field.\<close>
  "select_by_battery p [] = Inr []"
| "select_by_battery p (b # bs) =
     (case doc_battery_pct b of
        None \<Rightarrow> Inl ''KeyError''
      | Some v \<Rightarrow>
          (case select_by_battery p bs of
             Inl e \<Rightarrow> Inl e
           | Inr r \<Rightarrow> Inr (if p v then b # r else r)))"

record low_battery =
  lb_total_count :: nat
  lb_urgent_count :: nat
  lb_high_priority_count :: nat
  lb_urgent :: "bay_doc list"
  lb_high_priority :: "bay_doc list"
  lb_threshold :: int

definition get_low_battery_bays :: "database option \<Rightarrow> low_battery body \<times> nat" where
  "get_low_battery_bays db =
     (case db of
        None \<Rightarrow> (Unavailable ''Database connection not available'', 503)
      | Some d \<Rightarrow>
          (let low_battery_threshold = 20
           in case map_sum id (\<lambda>ds. find_low_battery ds low_battery_threshold) (bays_coll d) of
                Inl e \<Rightarrow> (Failure e, 500)
              | Inr low_battery_bays \<Rightarrow>
                  (case select_by_battery (\<lambda>v. v < 10) low_battery_bays of
                     Inl e \<Rightarrow> (Failure e, 500)
                   | Inr urgent \<Rightarrow>
                       (case select_by_battery (\<lambda>v. 10 \<le> v \<and> v < 20) low_battery_bays of
                          Inl e \<Rightarrow> (Failure e, 500)
                        | Inr high \<Rightarrow>
                            (Success
                               \<lparr> lb_total_count = length low_battery_bays,
                                 lb_urgent_count = length urgent,
                                 lb_high_priority_count = length high,
                                 lb_urgent = urgent,
                                 lb_high_priority = high,
                                 lb_threshold = low_battery_threshold \<rparr>, 200)))))"

section \<open>Auxiliary definitions for the proofs\<close>

text \<open>The invariant of every bay of a reachable simulator.\<close>

definition bay_ok :: "bay \<Rightarrow> bool" where
  "bay_ok b \<longleftrightarrow>
     15 \<le> temperature_c b \<and> temperature_c b \<le> 35 \<and> 20 \<le> battery_pct b \<and> battery_pct b \<le> 100"

text \<open>
  A small concrete simulator, \<open>ParkingSensorSimulator(levels=1, bays_per_level=2)\<close> with
  every initial draw free, 20.0 degrees and 60 percent.
\<close>

definition draw0 :: "int \<Rightarrow> int \<Rightarrow> init_draw" where
  "draw0 l b = \<lparr> draw_occupied = False, draw_uniform = 20, draw_randint = 60 \<rparr>"

definition sim0 :: simulator where
  "sim0 = new_simulator ''PK-CADIZ-01'' 1 2 draw0"

text \<open>
  A small store: a bay whose battery is flat, a bay on another level, and the document
  that \<open>pruebas.py\<close> inserts, which has no metrics.
\<close>

definition doc1 :: bay_doc where
  "doc1 = \<lparr> doc_bay_id = ''L1-A-001'', doc_level = Some ''L1'', doc_occupied = True,
             doc_temperature_c = Some 20, doc_battery_pct = Some 0 \<rparr>"

definition doc2 :: bay_doc where
  "doc2 = \<lparr> doc_bay_id = ''L2-A-001'', doc_level = Some ''L2'', doc_occupied = False,
             doc_temperature_c = Some (43 / 2), doc_battery_pct = Some 15 \<rparr>"

definition doc3 :: bay_doc where
  \<comment> \<open>the document \<open>pruebas.py\<close> inserts: no metrics\<close>
  "doc3 = \<lparr> doc_bay_id = ''TEST-001'', doc_level = Some ''L1'', doc_occupied = False,
             doc_temperature_c = None, doc_battery_pct = None \<rparr>"

definition db1 :: database where
  "db1 = \<lparr> ping = Inr (), bays_coll = Inr [doc2, doc1, doc3], events_coll = Inr [] \<rparr>"

text \<open>An event of the simulator and three behaviours of the Kafka client.\<close>

definition event0 :: event where
  "event0 = \<lparr> ev_bay_id = ''L1-A-001'', ev_parking_id = ''PK-CADIZ-01'', ev_level = ''L1'',
             ev_occupied = False, ev_last_event_ts = ''2025-10-18T10:00:00Z'',
             ev_temperature_c = 101 / 5, ev_battery_pct = 59,
             ev_updated_at = ''2025-10-18T10:00:00Z'' \<rparr>"

definition acking_producer :: "event producer" where
  "acking_producer = \<lparr> send = (\<lambda>t e. Inr 0), future_get = (\<lambda>f t. Inr ()) \<rparr>"

definition timing_out_producer :: "event producer" where
  "timing_out_producer =
     \<lparr> send = (\<lambda>t e. Inr 0), future_get = (\<lambda>f t. Inl (KafkaError ''KafkaTimeoutError'')) \<rparr>"

definition interrupted_producer :: "event producer" where
  \<comment> \<open>Ctrl+C arrives while \<open>future.get\<close> blocks: KeyboardInterrupt is not a KafkaError.\<close>
  "interrupted_producer =
     \<lparr> send = (\<lambda>t e. Inr 0), future_get = (\<lambda>f t. Inl (OtherException ''KeyboardInterrupt'')) \<rparr>"

text \<open>Predicates of the statements about the query service.\<close>

definition battery_below :: "int \<Rightarrow> bay_doc \<Rightarrow> bool" where
  "battery_below t d = (case doc_battery_pct d of None \<Rightarrow> False | Some v \<Rightarrow> v < t)"

definition battery_in :: "int \<Rightarrow> int \<Rightarrow> bay_doc \<Rightarrow> bool" where
  "battery_in lo hi d = (case doc_battery_pct d of None \<Rightarrow> False | Some v \<Rightarrow> lo \<le> v \<and> v < hi)"

definition unreachable :: "database option \<Rightarrow> bool" where
  \<comment> \<open>the connection is absent, or the ping or one of the two counts raises\<close>
  "unreachable db =
     (case db of
        None \<Rightarrow> True
      | Some d \<Rightarrow>
          isl (ping d) \<or> isl (count_documents (bays_coll d) (\<lambda>_. True))
          \<or> isl (count_documents (events_coll d) (\<lambda>_. True)))"

section \<open>Properties of the float operations\<close>

lemma round_half_even_err: "\<bar>of_int (round_half_even y) - y\<bar> \<le> 1 / 2"
proof -
  have "of_int \<lfloor>y\<rfloor> \<le> y" "y < of_int \<lfloor>y\<rfloor> + 1" by linarith+
  then show ?thesis unfolding round_half_even_def Let_def by (auto simp: abs_le_iff)
qed


lemma pow2_powi: "pow2 k = 2 powi k"
  by (simp add: pow2_def power_int_def inverse_eq_divide power_one_over)

lemma pow2_pos: "0 < pow2 k"
  by (simp add: pow2_powi)

lemma pow2_mono: "a \<le> b \<Longrightarrow> pow2 a \<le> pow2 b"
  by (simp add: pow2_powi power_int_increasing)

lemma pow2_diff: "pow2 (a - b) = pow2 a / pow2 b"
  by (simp add: pow2_powi power_int_diff)

lemma pow2_nat: "pow2 (int n) = 2 ^ n"
  by (simp add: pow2_def)

lemma floor_log2_le:
  assumes "0 < a"
  shows "pow2 (floor_log2 a) \<le> a"
proof -
  obtain p q where pq: "quotient_of a = (p, q)" by (cases "quotient_of a")
  have q: "0 < q" using pq by (rule quotient_of_denom_pos)
  have a: "a = of_int p / of_int q" using pq by (rule quotient_of_div)
  have p: "0 < p" using assms q a by (simp add: zero_less_divide_iff)
  define d where "d = bitlen p - bitlen q"
  have fl: "floor_log2 a = (if pow2 d \<le> a then d else d - 1)"
    by (simp add: floor_log2_def pq d_def Let_def)
  have bp: "0 < bitlen p" "0 < bitlen q"
    using p q bitlen_eq_zero_iff [of p] bitlen_eq_zero_iff [of q] bitlen_nonneg [of p]
      bitlen_nonneg [of q] by linarith+
  have lo: "(2::int) ^ nat (bitlen p - 1) \<le> p" using bitlen_bounds [OF p] by simp
  have hi: "q < (2::int) ^ nat (bitlen q)" using bitlen_bounds [OF q] by simp
  have lo': "pow2 (bitlen p - 1) \<le> of_int p"
  proof -
    have "(of_int ((2::int) ^ nat (bitlen p - 1)) :: rat) \<le> of_int p"
      using lo by (simp only: of_int_le_iff)
    then show ?thesis using bp by (simp add: pow2_def)
  qed
  have hi': "of_int q \<le> pow2 (bitlen q)"
  proof -
    have "(of_int q :: rat) \<le> of_int ((2::int) ^ nat (bitlen q))"
      using hi by (simp only: of_int_le_iff)
    then show ?thesis using bp by (simp add: pow2_def)
  qed
  have "pow2 (d - 1) = pow2 (bitlen p - 1) / pow2 (bitlen q)"
    unfolding d_def using pow2_diff [of "bitlen p - 1" "bitlen q"] by (simp add: algebra_simps)
  also have "\<dots> \<le> of_int p / of_int q"
    using lo' hi' q pow2_pos [of "bitlen p - 1"] by (intro frac_le) simp_all
  finally have "pow2 (d - 1) \<le> a" using a by simp
  then show ?thesis by (simp add: fl)
qed

lemma to_double_err: "\<bar>to_double x - x\<bar> \<le> \<bar>x\<bar> / 2 ^ 53 + pow2 (- 1075)"
proof (cases "x = 0")
  case True
  then show ?thesis using pow2_pos [of "- 1075"] by (simp add: to_double_def)
next
  case False
  define e where "e = floor_log2 \<bar>x\<bar>"
  define q where "q = max e (- 1022) - 52"
  have td: "to_double x = of_int (round_half_even (x / pow2 q)) * pow2 q"
    using False by (simp add: to_double_def q_def e_def Let_def)
  have pq: "0 < pow2 q" by (rule pow2_pos)
  have "to_double x - x = (of_int (round_half_even (x / pow2 q)) - x / pow2 q) * pow2 q"
    using pq by (simp add: td algebra_simps)
  then have "\<bar>to_double x - x\<bar> = \<bar>of_int (round_half_even (x / pow2 q)) - x / pow2 q\<bar> * pow2 q"
    using pq by (simp add: abs_mult)
  also have "\<dots> \<le> (1 / 2) * pow2 q"
    using round_half_even_err [of "x / pow2 q"] pq by (intro mult_right_mono) simp_all
  also have "\<dots> = pow2 (q - 1)"
    using pow2_diff [of q 1] by (simp add: pow2_def)
  finally have main: "\<bar>to_double x - x\<bar> \<le> pow2 (q - 1)" .
  have ex: "pow2 e \<le> \<bar>x\<bar>" unfolding e_def using False by (intro floor_log2_le) simp
  show ?thesis
  proof (cases "- 1022 \<le> e")
    case True
    then have "q - 1 = e - 53" by (simp add: q_def)
    then have "pow2 (q - 1) = pow2 (e - 53)" by (simp only:)
    also have "\<dots> = pow2 e / pow2 53" by (rule pow2_diff)
    also have "\<dots> = pow2 e / 2 ^ 53" using pow2_nat [of 53] by simp
    also have "\<dots> \<le> \<bar>x\<bar> / 2 ^ 53" using ex by (simp add: divide_right_mono)
    finally show ?thesis using main pow2_pos [of "- 1075"] by linarith
  next
    case False
    then have "q - 1 = - 1075" by (simp add: q_def)
    then have "pow2 (q - 1) = pow2 (- 1075)" by (simp only:)
    moreover have "0 \<le> \<bar>x\<bar> / 2 ^ 53" by simp
    ultimately show ?thesis using main by linarith
  qed
qed

lemma pow2_tiny: "pow2 (- 1075) \<le> 1 / 2 ^ 53"
proof -
  have "pow2 (- 1075) \<le> pow2 (- 53)" by (rule pow2_mono) simp
  then show ?thesis by (simp add: pow2_def)
qed

lemma to_double_zero: "to_double 0 = 0"
  by (simp add: to_double_def)

lemma to_double_15: "to_double 15 = 15"
  by code_simp

lemma to_double_near:
  assumes "\<bar>x\<bar> \<le> 100"
  shows "\<bar>to_double x - x\<bar> \<le> 1"
proof -
  have "\<bar>x\<bar> / 2 ^ 53 \<le> 100 / 2 ^ 53" using assms by (simp add: divide_right_mono)
  then show ?thesis using to_double_err [of x] pow2_tiny by simp
qed


text \<open>
  Four values that Python prints: \<open>round(23 / 160 * 100, 2)\<close> is 14.37 although the
  exact quotient is 14.375, \<open>round((23 / 80) * 100, 1)\<close> is 28.7, \<open>round(20.4 + -0.25, 1)\<close>
  is 20.1, and \<open>round((5 / 20) * 100, 1)\<close> is 25.0.
\<close>

lemma rate_23_of_160: "py_round (fmul (fdiv 23 160) 100) 2 = 1437 / 100"
  by code_simp

lemma rate_23_of_80: "py_round (fmul (fdiv 23 80) 100) 1 = 287 / 10"
  by code_simp

lemma sum_204_minus_quarter:
  "py_round (fadd (to_double (204 / 10)) (to_double (- 1 / 4))) 1 = 201 / 10"
  by code_simp

lemma rate_5_of_20: "py_round (fmul (fdiv 5 20) 100) 1 = 25"
  by code_simp

section \<open>Properties of the simulator\<close>

lemma rhe_ge: "of_int m \<le> x \<Longrightarrow> m \<le> round_half_even x"
  unfolding round_half_even_def Let_def
  by (auto simp: le_floor_iff) linarith+

lemma rhe_le: "x \<le> of_int m \<Longrightarrow> round_half_even x \<le> m"
proof -
  assume h: "x \<le> of_int m"
  have f: "\<lfloor>x\<rfloor> \<le> m" using h by (simp add: floor_le_iff) 
  show ?thesis
  proof (cases "\<lfloor>x\<rfloor> = m")
    case True
    then have "x = of_int m" using h by (metis of_int_floor_le order_antisym)
    then show ?thesis by (simp add: round_half_even_def)
  next
    case False
    then have "\<lfloor>x\<rfloor> + 1 \<le> m" using f by simp
    then show ?thesis unfolding round_half_even_def Let_def by auto
  qed
qed

lemma py_round_1_bounds:
  assumes "of_int a \<le> x" "x \<le> of_int b"
  shows "of_int a \<le> py_round x 1 \<and> py_round x 1 \<le> of_int b"
proof -
  have "of_int (a * 10) \<le> x * 10" using assms by simp
  then have 1: "a * 10 \<le> round_half_even (x * 10)" by (rule rhe_ge)
  have "x * 10 \<le> of_int (b * 10)" using assms by simp
  then have 2: "round_half_even (x * 10) \<le> b * 10" by (rule rhe_le)
  have "(of_int (a * 10) :: rat) \<le> of_int (round_half_even (x * 10))"
    using 1 by (simp only: of_int_le_iff)
  moreover have "(of_int (round_half_even (x * 10)) :: rat) \<le> of_int (b * 10)"
    using 2 by (simp only: of_int_le_iff)
  ultimately show ?thesis by (simp add: py_round_def)
qed

lemma set_update_subset: "set (AList.update k v al) \<subseteq> insert (k, v) (set al)"
  by (induction al) auto

lemma foldl_update_all:
  assumes "\<forall>x \<in> set acc. P x" "\<forall>y \<in> set ys. P (kf y, vf y)"
  shows "\<forall>x \<in> set (foldl (\<lambda>acc y. AList.update (kf y) (vf y) acc) acc ys). P x"
  using assms
proof (induction ys arbitrary: acc)
  case Nil
  then show ?case by simp
next
  case (Cons y ys)
  have "\<forall>x \<in> set (AList.update (kf y) (vf y) acc). P x"
    using Cons.prems set_update_subset [of "kf y" "vf y" acc] by auto
  then show ?case using Cons by simp
qed

lemma new_bay_ok:
  assumes "valid_init_draw d"
  shows "bay_ok (new_bay pid l b d)"
proof -
  have u: "18 \<le> draw_uniform d" "draw_uniform d \<le> 28"
    and r: "60 \<le> draw_randint d" "draw_randint d \<le> 100"
    using assms by (simp_all add: valid_init_draw_def)
  have "\<bar>to_double (draw_uniform d) - draw_uniform d\<bar> \<le> 1"
    using u by (intro to_double_near) (simp add: abs_le_iff)
  then have "of_int 17 \<le> to_double (draw_uniform d)" "to_double (draw_uniform d) \<le> of_int 29"
    using u by (simp_all add: abs_le_iff)
  from py_round_1_bounds [OF this] show ?thesis
    using r by (simp add: bay_ok_def new_bay_def)
qed

lemma initialize_bays_ok:
  assumes "\<And>l b. valid_init_draw (rnd l b)"
  shows "\<forall>x \<in> set (initialize_bays pid lv bpl rnd). bay_ok (snd x)"
proof -
  have inner: "\<forall>x \<in> set (foldl (\<lambda>acc b. AList.update (make_bay_id l b) (new_bay pid l b (rnd l b)) acc) acc bs). bay_ok (snd x)"
    if "\<forall>x \<in> set acc. bay_ok (snd x)" for acc l bs
    using that by (intro foldl_update_all) (simp_all add: new_bay_ok assms)
  have outer: "\<forall>x \<in> set (foldl (\<lambda>acc l. foldl (\<lambda>acc b. AList.update (make_bay_id l b) (new_bay pid l b (rnd l b)) acc) acc bs) acc ls). bay_ok (snd x)"
    if "\<forall>x \<in> set acc. bay_ok (snd x)" for acc ls bs
    using that
  proof (induction ls arbitrary: acc)
    case Nil
    then show ?case by simp
  next
    case (Cons l ls)
    show ?case unfolding foldl_Cons
      by (rule Cons.IH) (rule inner [OF Cons.prems])
  qed
  have "\<forall>x \<in> set ([] :: (string \<times> bay) list). bay_ok (snd x)" by simp
  from outer [OF this] show ?thesis unfolding initialize_bays_def .
qed

lemma drift_temperature: "15 \<le> temperature_c (drift b u r) \<and> temperature_c (drift b u r) \<le> 35"
  by (simp add: drift_def Let_def)

lemma drift_battery:
  "battery_pct (drift b u r) = (if r < 1 / 10 then max 20 (battery_pct b - 1) else battery_pct b)"
  by (simp add: drift_def Let_def)

lemma drift_occupied: "occupied (drift b u r) = occupied b"
  by (simp add: drift_def Let_def)

lemma drift_ok: "20 \<le> battery_pct b \<Longrightarrow> battery_pct b \<le> 100 \<Longrightarrow> bay_ok (drift b u r)"
  using drift_temperature [of b u r] by (simp add: bay_ok_def drift_battery)

lemma reachable_ok: "reachable s \<Longrightarrow> \<forall>x \<in> set (bays s). bay_ok (snd x)"
proof (induction rule: reachable.induct)
  case (init rnd pid lv bpl)
  have "\<forall>x \<in> set (initialize_bays pid lv bpl rnd). bay_ok (snd x)"
    by (rule initialize_bays_ok) (rule init)
  then show ?case by (simp add: new_simulator_def)
next
  case (event s bid now u r ev s')
  from event.hyps(2) obtain b where b: "map_of (bays s) bid = Some b"
    and s': "s' = s\<lparr>bays := AList.update bid (drift b u r) (bays s)\<rparr>"
    by (auto simp: generate_event_def Let_def split: option.splits)
  have "(bid, b) \<in> set (bays s)" using b by (rule map_of_SomeD)
  then have "bay_ok b" using event.IH by auto
  then have "bay_ok (drift b u r)" by (intro drift_ok) (simp_all add: bay_ok_def)
  then show ?case using event.IH set_update_subset [of bid "drift b u r" "bays s"] s' by auto
next
  case (movement s k bid s')
  from movement.hyps(2) obtain b where b: "map_of (bays s) bid = Some b"
    and s': "s' = s\<lparr>bays := AList.update bid (b\<lparr>occupied := \<not> occupied b\<rparr>) (bays s)\<rparr>"
    by (auto simp: simulate_vehicle_movement_def split: sum.splits option.splits)
  have "(bid, b) \<in> set (bays s)" using b by (rule map_of_SomeD)
  then have "bay_ok b" using movement.IH by auto
  then have "bay_ok (b\<lparr>occupied := \<not> occupied b\<rparr>)" by (simp add: bay_ok_def)
  then show ?case
    using movement.IH set_update_subset [of bid "b\<lparr>occupied := \<not> occupied b\<rparr>" "bays s"] s' by auto
qed


text \<open>
  Claim C3. In a simulator reachable from \<open>_initialize_bays\<close>, one call of
  \<open>generate_event\<close> leaves the battery of every bay either unchanged or lower by exactly
  one, so it never increases; the emitted event reports the new value of its bay.
\<close>

theorem battery_non_increasing:
  assumes "reachable s" "map_of (bays s) k = Some old"
    and "generate_event s bid now u r = Inr (ev, s')"
  shows "\<exists>new. map_of (bays s') k = Some new
           \<and> (battery_pct new = battery_pct old \<or> battery_pct new = battery_pct old - 1)
           \<and> battery_pct new \<le> battery_pct old
           \<and> (k = bid \<longrightarrow> ev_battery_pct ev = battery_pct new)"
proof -
  from assms(3) obtain b where b: "map_of (bays s) bid = Some b"
    and ev: "ev = snapshot (drift b u r) now"
    and s': "bays s' = AList.update bid (drift b u r) (bays s)"
    by (auto simp: generate_event_def Let_def split: option.splits)
  show ?thesis
  proof (cases "k = bid")
    case True
    then have old: "old = b" using assms(2) b by simp
    have "(bid, b) \<in> set (bays s)" using b by (rule map_of_SomeD)
    then have "bay_ok b" using reachable_ok [OF assms(1)] by auto
    then have "20 \<le> battery_pct b" by (simp add: bay_ok_def)
    then have "(battery_pct (drift b u r) = battery_pct b
                 \<or> battery_pct (drift b u r) = battery_pct b - 1)
               \<and> battery_pct (drift b u r) \<le> battery_pct b"
      by (auto simp: drift_battery)
    moreover have "map_of (bays s') k = Some (drift b u r)"
      using True s' by (simp add: update_conv')
    moreover have "ev_battery_pct ev = battery_pct (drift b u r)"
      using ev by (simp add: snapshot_def)
    ultimately show ?thesis using old by simp
  next
    case False
    then have "map_of (bays s') k = Some old"
      using s' assms(2) by (simp add: update_conv')
    then show ?thesis using False by simp
  qed
qed

lemma sim0_bays: "bays sim0 = [(''L1-A-001'', \<lparr>bay_id = ''L1-A-001'', parking_id = ''PK-CADIZ-01'', level = ''L1'', occupied = False, temperature_c = 20, battery_pct = 60\<rparr>),
   (''L1-A-002'', \<lparr>bay_id = ''L1-A-002'', parking_id = ''PK-CADIZ-01'', level = ''L1'', occupied = False, temperature_c = 20, battery_pct = 60\<rparr>)]"
  by code_simp


lemma sim0_reachable: "reachable sim0"
  unfolding sim0_def by (rule reachable.init) (simp add: draw0_def valid_init_draw_def)

lemma sim0_event:
  "generate_event sim0 ''L1-A-001'' ''2025-10-18T10:00:00Z'' (1 / 4) (1 / 20) =
     Inr (\<lparr> ev_bay_id = ''L1-A-001'', ev_parking_id = ''PK-CADIZ-01'', ev_level = ''L1'',
             ev_occupied = False, ev_last_event_ts = ''2025-10-18T10:00:00Z'',
             ev_temperature_c = 101 / 5, ev_battery_pct = 59,
             ev_updated_at = ''2025-10-18T10:00:00Z'' \<rparr>,
          sim0\<lparr>bays := AList.update ''L1-A-001''
             \<lparr>bay_id = ''L1-A-001'', parking_id = ''PK-CADIZ-01'', level = ''L1'',
               occupied = False, temperature_c = 101 / 5, battery_pct = 59\<rparr> (bays sim0)\<rparr>)"
  by code_simp

theorem battery_non_increasing_witness:
  "reachable sim0
   \<and> (\<exists>ev s'. generate_event sim0 ''L1-A-001'' ''2025-10-18T10:00:00Z'' (1 / 4) (1 / 20) = Inr (ev, s')
        \<and> (\<exists>new. map_of (bays s') ''L1-A-001'' = Some new
              \<and> (battery_pct new = 60 \<or> battery_pct new = 60 - 1)
              \<and> ev_battery_pct ev = battery_pct new))"
proof -
  have m: "map_of (bays sim0) ''L1-A-001'' =
      Some \<lparr>bay_id = ''L1-A-001'', parking_id = ''PK-CADIZ-01'', level = ''L1'',
            occupied = False, temperature_c = 20, battery_pct = 60\<rparr>"
    by (simp add: sim0_bays)
  from battery_non_increasing [OF sim0_reachable m sim0_event]
  obtain new where "map_of (bays (sim0\<lparr>bays := AList.update ''L1-A-001''
             \<lparr>bay_id = ''L1-A-001'', parking_id = ''PK-CADIZ-01'', level = ''L1'',
               occupied = False, temperature_c = 101 / 5, battery_pct = 59\<rparr> (bays sim0)\<rparr>))
            ''L1-A-001'' = Some new"
    and "battery_pct new = 60 \<or> battery_pct new = 60 - 1"
    and "59 = battery_pct new"
    by auto
  then show ?thesis using sim0_reachable sim0_event by simp
qed

text \<open>
  Claim C4. In every simulator state reachable from initialisation, each stored bay has
  its temperature in [15, 35] and its battery in [0, 100], and every event that
  \<open>generate_event\<close> produces there carries metrics within the same bounds.
\<close>

theorem metrics_bounds:
  assumes "reachable s"
  shows "(\<forall>x \<in> set (bays s).
            15 \<le> temperature_c (snd x) \<and> temperature_c (snd x) \<le> 35
            \<and> 0 \<le> battery_pct (snd x) \<and> battery_pct (snd x) \<le> 100)
         \<and> (\<forall>bid now u r ev s'. generate_event s bid now u r = Inr (ev, s') \<longrightarrow>
               15 \<le> ev_temperature_c ev \<and> ev_temperature_c ev \<le> 35
               \<and> 0 \<le> ev_battery_pct ev \<and> ev_battery_pct ev \<le> 100)"
proof -
  have stored: "15 \<le> temperature_c (snd x) \<and> temperature_c (snd x) \<le> 35
            \<and> 0 \<le> battery_pct (snd x) \<and> battery_pct (snd x) \<le> 100"
    if "x \<in> set (bays s)" for x
  proof -
    have "bay_ok (snd x)" using that reachable_ok [OF assms] by simp
    then show ?thesis by (simp add: bay_ok_def)
  qed
  have emitted: "15 \<le> ev_temperature_c ev \<and> ev_temperature_c ev \<le> 35
               \<and> 0 \<le> ev_battery_pct ev \<and> ev_battery_pct ev \<le> 100"
    if g: "generate_event s bid now u r = Inr (ev, s')" for bid now u r ev s'
  proof -
    from g obtain b where b: "map_of (bays s) bid = Some b"
      and ev: "ev = snapshot (drift b u r) now"
      by (auto simp: generate_event_def Let_def split: option.splits)
    have "(bid, b) \<in> set (bays s)" using b by (rule map_of_SomeD)
    then have "bay_ok b" using reachable_ok [OF assms] by auto
    then have "bay_ok (drift b u r)" by (intro drift_ok) (simp_all add: bay_ok_def)
    then show ?thesis using ev by (simp add: bay_ok_def snapshot_def)
  qed
  show ?thesis using stored emitted by blast
qed

theorem metrics_bounds_witness:
  "reachable sim0
   \<and> (\<exists>x. x \<in> set (bays sim0)
         \<and> 15 \<le> temperature_c (snd x) \<and> temperature_c (snd x) \<le> 35
         \<and> 0 \<le> battery_pct (snd x) \<and> battery_pct (snd x) \<le> 100)
   \<and> (\<exists>ev s'. generate_event sim0 ''L1-A-001'' ''2025-10-18T10:00:00Z'' (1 / 4) (1 / 20) = Inr (ev, s')
         \<and> 15 \<le> ev_temperature_c ev \<and> ev_temperature_c ev \<le> 35
         \<and> 0 \<le> ev_battery_pct ev \<and> ev_battery_pct ev \<le> 100)"
proof -
  note mb = metrics_bounds [OF sim0_reachable]
  have "hd (bays sim0) \<in> set (bays sim0)" by (simp add: sim0_bays)
  then have 1: "\<exists>x. x \<in> set (bays sim0)
         \<and> 15 \<le> temperature_c (snd x) \<and> temperature_c (snd x) \<le> 35
         \<and> 0 \<le> battery_pct (snd x) \<and> battery_pct (snd x) \<le> 100"
    using mb by blast
  have 2: "generate_event sim0 bid now u r = Inr (ev, s') \<Longrightarrow>
               15 \<le> ev_temperature_c ev \<and> ev_temperature_c ev \<le> 35
               \<and> 0 \<le> ev_battery_pct ev \<and> ev_battery_pct ev \<le> 100" for bid now u r ev s'
    using mb by blast
  show ?thesis using sim0_reachable 1 2 [OF sim0_event] sim0_event by blast
qed

lemma random_choice_mem: "random_choice xs k = Inr x \<Longrightarrow> x \<in> set xs"
  by (auto simp: random_choice_def split: if_splits)

lemma random_choice_nonempty: "xs \<noteq> [] \<Longrightarrow> \<exists>x. random_choice xs k = Inr x"
  by (simp add: random_choice_def)

lemma keys_update_present: "map_of al k = Some v \<Longrightarrow> map fst (AList.update k v' al) = map fst al"
  by (auto simp: update_keys dest: map_of_SomeD intro: rev_image_eqI)

lemma generate_event_frame:
  assumes "generate_event s bid now u r = Inr (ev, s')"
  shows "map fst (bays s') = map fst (bays s)"
    and "map_of (bays s) k = Some b \<Longrightarrow>
           \<exists>b'. map_of (bays s') k = Some b' \<and> occupied b' = occupied b \<and> (k \<noteq> bid \<longrightarrow> b' = b)"
proof -
  from assms obtain b0 where b0: "map_of (bays s) bid = Some b0"
    and s': "bays s' = AList.update bid (drift b0 u r) (bays s)"
    by (auto simp: generate_event_def Let_def split: option.splits)
  show "map fst (bays s') = map fst (bays s)"
    using s' keys_update_present [OF b0] by simp
  show "\<exists>b'. map_of (bays s') k = Some b' \<and> occupied b' = occupied b \<and> (k \<noteq> bid \<longrightarrow> b' = b)"
    if "map_of (bays s) k = Some b"
    using that b0 s' by (cases "k = bid") (simp_all add: update_conv' drift_occupied)
qed

lemma movement_frame:
  assumes "simulate_vehicle_movement s k = Inr (chosen, s')"
  shows "\<exists>b. map_of (bays s) chosen = Some b
           \<and> map_of (bays s') chosen = Some (b\<lparr>occupied := \<not> occupied b\<rparr>)
           \<and> (\<forall>k'. k' \<noteq> chosen \<longrightarrow> map_of (bays s') k' = map_of (bays s) k')
           \<and> map fst (bays s') = map fst (bays s)
           \<and> chosen \<in> set (map fst (bays s))"
proof -
  from assms obtain b where c: "random_choice (map fst (bays s)) k = Inr chosen"
    and b: "map_of (bays s) chosen = Some b"
    and s': "bays s' = AList.update chosen (b\<lparr>occupied := \<not> occupied b\<rparr>) (bays s)"
    by (auto simp: simulate_vehicle_movement_def split: sum.splits option.splits)
  have "map fst (bays s') = map fst (bays s)"
    using s' keys_update_present [OF b] by simp
  moreover have "chosen \<in> set (map fst (bays s))" using c by (rule random_choice_mem)
  ultimately show ?thesis using b s' by (simp add: update_conv')
qed

text \<open>
  Claim C7. \<open>generate_event\<close> keeps the key list, the occupied flag of every bay and the
  whole of every bay other than the one asked for; \<open>simulate_vehicle_movement\<close> returns a
  key of the bay map, negates the occupied flag of that bay only, and leaves its other
  fields, all other bays and the key list as they were.
\<close>

theorem occupied_changes_only_by_movement:
  "(generate_event s bid now u r = Inr (ev, s1) \<longrightarrow>
      map fst (bays s1) = map fst (bays s)
      \<and> (\<forall>k b. map_of (bays s) k = Some b \<longrightarrow>
            (\<exists>b'. map_of (bays s1) k = Some b' \<and> occupied b' = occupied b
                   \<and> (k \<noteq> bid \<longrightarrow> b' = b))))
   \<and> (simulate_vehicle_movement s n = Inr (chosen, s2) \<longrightarrow>
        (\<exists>b. map_of (bays s) chosen = Some b
           \<and> map_of (bays s2) chosen = Some (b\<lparr>occupied := \<not> occupied b\<rparr>)
           \<and> (\<forall>k. k \<noteq> chosen \<longrightarrow> map_of (bays s2) k = map_of (bays s) k)
           \<and> map fst (bays s2) = map fst (bays s)
           \<and> chosen \<in> set (map fst (bays s))))"
  using generate_event_frame [of s bid now u r ev s1] movement_frame [of s n chosen s2]
  by blast

lemma sim0_movement:
  "simulate_vehicle_movement sim0 3 =
     Inr (''L1-A-002'',
          sim0\<lparr>bays := AList.update ''L1-A-002''
             \<lparr>bay_id = ''L1-A-002'', parking_id = ''PK-CADIZ-01'', level = ''L1'',
               occupied = True, temperature_c = 20, battery_pct = 60\<rparr> (bays sim0)\<rparr>)"
proof -
  have "(3::nat) mod Suc (Suc 0) = Suc 0" by presburger
  then show ?thesis
    by (simp add: simulate_vehicle_movement_def random_choice_def sim0_bays)
qed

theorem occupied_changes_only_by_movement_witness:
  "\<exists>ev s1 s2 b.
     generate_event sim0 ''L1-A-001'' ''2025-10-18T10:00:00Z'' (1 / 4) (1 / 20) = Inr (ev, s1)
     \<and> simulate_vehicle_movement sim0 3 = Inr (''L1-A-002'', s2)
     \<and> map_of (bays sim0) ''L1-A-002'' = Some b
     \<and> map fst (bays s1) = map fst (bays sim0)
     \<and> map_of (bays s1) ''L1-A-002'' = Some b
     \<and> map_of (bays s2) ''L1-A-002'' = Some (b\<lparr>occupied := \<not> occupied b\<rparr>)
     \<and> map_of (bays s2) ''L1-A-001'' = map_of (bays sim0) ''L1-A-001''
     \<and> map fst (bays s2) = map fst (bays sim0)"
proof -
  note t = occupied_changes_only_by_movement [where s = sim0 and n = 3]
  note a = t [THEN conjunct1, THEN mp, OF sim0_event]
  note m = t [THEN conjunct2, THEN mp, OF sim0_movement]
  from m obtain b where b: "map_of (bays sim0) ''L1-A-002'' = Some b"
    and flipped: "map_of (bays (sim0\<lparr>bays := AList.update ''L1-A-002''
             \<lparr>bay_id = ''L1-A-002'', parking_id = ''PK-CADIZ-01'', level = ''L1'',
               occupied = True, temperature_c = 20, battery_pct = 60\<rparr> (bays sim0)\<rparr>))
            ''L1-A-002'' = Some (b\<lparr>occupied := \<not> occupied b\<rparr>)"
    and others: "\<And>k. k \<noteq> ''L1-A-002'' \<Longrightarrow>
           map_of (bays (sim0\<lparr>bays := AList.update ''L1-A-002''
             \<lparr>bay_id = ''L1-A-002'', parking_id = ''PK-CADIZ-01'', level = ''L1'',
               occupied = True, temperature_c = 20, battery_pct = 60\<rparr> (bays sim0)\<rparr>)) k
           = map_of (bays sim0) k"
    and keys2: "map fst (bays (sim0\<lparr>bays := AList.update ''L1-A-002''
             \<lparr>bay_id = ''L1-A-002'', parking_id = ''PK-CADIZ-01'', level = ''L1'',
               occupied = True, temperature_c = 20, battery_pct = 60\<rparr> (bays sim0)\<rparr>))
           = map fst (bays sim0)"
    by blast
  have ne: "''L1-A-002'' \<noteq> ''L1-A-001''" "''L1-A-001'' \<noteq> ''L1-A-002''" by simp_all
  from a [THEN conjunct2, rule_format, OF b]
  obtain b' where "map_of (bays (sim0\<lparr>bays := AList.update ''L1-A-001''
             \<lparr>bay_id = ''L1-A-001'', parking_id = ''PK-CADIZ-01'', level = ''L1'',
               occupied = False, temperature_c = 101 / 5, battery_pct = 59\<rparr> (bays sim0)\<rparr>))
            ''L1-A-002'' = Some b'"
    and "''L1-A-002'' \<noteq> ''L1-A-001'' \<longrightarrow> b' = b"
    by blast
  then have same: "map_of (bays (sim0\<lparr>bays := AList.update ''L1-A-001''
             \<lparr>bay_id = ''L1-A-001'', parking_id = ''PK-CADIZ-01'', level = ''L1'',
               occupied = False, temperature_c = 101 / 5, battery_pct = 59\<rparr> (bays sim0)\<rparr>))
            ''L1-A-002'' = Some b"
    using ne(1) by blast
  show ?thesis
    apply (rule exI, rule exI, rule exI, rule exI [of _ b])
    apply (rule conjI, rule sim0_event)
    apply (rule conjI, rule sim0_movement)
    apply (rule conjI, rule b)
    apply (rule conjI, rule a [THEN conjunct1])
    apply (rule conjI, rule same)
    apply (rule conjI, rule flipped)
    apply (rule conjI, rule others [OF ne(2)])
    apply (rule keys2)
    done
qed

text \<open>
  Claim C10. With at least one bay, \<open>simulate_vehicle_movement\<close> returns a key of the bay
  map without changing the keys, and the \<open>generate_event\<close> call that the run loop makes
  next on that key succeeds, again without changing the keys.
\<close>

theorem movement_then_event_succeeds:
  assumes "bays s \<noteq> []"
  shows "\<exists>bid s'. simulate_vehicle_movement s n = Inr (bid, s')
           \<and> bid \<in> set (map fst (bays s'))
           \<and> map fst (bays s') = map fst (bays s)
           \<and> (\<exists>ev s''. generate_event s' bid now u r = Inr (ev, s'')
                 \<and> map fst (bays s'') = map fst (bays s))"
proof -
  from assms have "map fst (bays s) \<noteq> []" by simp
  then obtain bid where c: "random_choice (map fst (bays s)) n = Inr bid"
    using random_choice_nonempty [of "map fst (bays s)" n] by blast
  then have mem0: "bid \<in> set (map fst (bays s))" by (rule random_choice_mem)
  then have "map_of (bays s) bid \<noteq> None" by (simp add: map_of_eq_None_iff)
  then obtain b where b: "map_of (bays s) bid = Some b" by blast
  define s' where "s' = s\<lparr>bays := AList.update bid (b\<lparr>occupied := \<not> occupied b\<rparr>) (bays s)\<rparr>"
  have m: "simulate_vehicle_movement s n = Inr (bid, s')"
    using c b by (simp add: simulate_vehicle_movement_def s'_def)
  have keys: "map fst (bays s') = map fst (bays s)"
    unfolding s'_def using keys_update_present [OF b] by simp
  have b': "map_of (bays s') bid = Some (b\<lparr>occupied := \<not> occupied b\<rparr>)"
    unfolding s'_def by (simp add: update_conv')
  have mem: "bid \<in> set (map fst (bays s'))"
    using mem0 keys by simp
  define b2 where "b2 = drift (b\<lparr>occupied := \<not> occupied b\<rparr>) u r"
  have g: "generate_event s' bid now u r
             = Inr (snapshot b2 now, s'\<lparr>bays := AList.update bid b2 (bays s')\<rparr>)"
    using b' by (simp add: generate_event_def Let_def b2_def)
  have keys2: "map fst (bays (s'\<lparr>bays := AList.update bid b2 (bays s')\<rparr>)) = map fst (bays s)"
    using generate_event_frame(1) [OF g] keys by simp
  have "\<exists>ev s''. generate_event s' bid now u r = Inr (ev, s'')
          \<and> map fst (bays s'') = map fst (bays s)"
    using g keys2 by blast
  then show ?thesis using m keys mem by blast
qed

theorem movement_then_event_succeeds_witness:
  "bays sim0 \<noteq> []
   \<and> (\<exists>bid s'. simulate_vehicle_movement sim0 3 = Inr (bid, s')
         \<and> bid \<in> set (map fst (bays s'))
         \<and> map fst (bays s') = map fst (bays sim0)
         \<and> (\<exists>ev s''. generate_event s' bid ''2025-10-18T10:00:00Z'' (1 / 4) (1 / 20) = Inr (ev, s'')
               \<and> map fst (bays s'') = map fst (bays sim0)))"
proof (rule conjI)
  show ne: "bays sim0 \<noteq> []" by (simp add: sim0_bays)
  show "\<exists>bid s'. simulate_vehicle_movement sim0 3 = Inr (bid, s')
         \<and> bid \<in> set (map fst (bays s'))
         \<and> map fst (bays s') = map fst (bays sim0)
         \<and> (\<exists>ev s''. generate_event s' bid ''2025-10-18T10:00:00Z'' (1 / 4) (1 / 20) = Inr (ev, s'')
               \<and> map fst (bays s'') = map fst (bays sim0))"
    by (rule movement_then_event_succeeds [OF ne])
qed

lemma empty_bays: "bays (new_simulator ''PK-CADIZ-01'' 0 10 draw0) = []"
  by (simp add: new_simulator_def initialize_bays_def)

text \<open>
  Claim C1. On the simulator built with \<open>levels=0\<close> the bay set is empty and
  \<open>get_parking_status\<close> raises ZeroDivisionError: the division is not guarded.
\<close>

theorem get_parking_status_empty_raises:
  "length (bays (new_simulator ''PK-CADIZ-01'' 0 10 draw0)) = 0
   \<and> get_parking_status (new_simulator ''PK-CADIZ-01'' 0 10 draw0) = Inl ZeroDivisionError"
  by (simp add: get_parking_status_def empty_bays py_truediv_def)

lemma get_parking_status_nonempty:
  "bays s \<noteq> [] \<Longrightarrow>
     \<exists>st. get_parking_status s = Inr st
       \<and> ps_occupancy_rate st =
           py_round (fmul (fdiv (of_int (ps_occupied st)) (of_int (ps_total_bays st))) 100) 1
       \<and> ps_total_bays st = int (length (bays s))
       \<and> ps_occupied st + ps_free st = ps_total_bays st"
  by (simp add: get_parking_status_def py_truediv_def Let_def)

section \<open>Properties of the publisher and the query service\<close>





lemma select_by_battery_filter:
  "\<forall>b \<in> set bs. doc_battery_pct b \<noteq> None \<Longrightarrow>
     select_by_battery p bs =
       Inr (filter (\<lambda>b. case doc_battery_pct b of None \<Rightarrow> False | Some v \<Rightarrow> p v) bs)"
  by (induction bs) (auto split: option.splits)

lemma find_low_battery_set:
  "set (find_low_battery ds t) = {d \<in> set ds. battery_below t d}"
  by (auto simp: find_low_battery_def battery_below_def)

lemma find_low_battery_mset:
  "mset (find_low_battery ds t) = mset (filter (battery_below t) ds)"
proof -
  have "(\<lambda>d. case doc_battery_pct d of None \<Rightarrow> False | Some b \<Rightarrow> b < t) = battery_below t"
    by (rule ext) (simp add: battery_below_def)
  then show ?thesis by (simp add: find_low_battery_def)
qed

lemma find_low_battery_sorted: "sorted (map doc_battery_pct (find_low_battery ds t))"
  by (simp add: find_low_battery_def)

lemma sorted_split:
  assumes "sorted (map doc_battery_pct xs)" "\<forall>x \<in> set xs. battery_below 20 x"
  shows "filter (battery_below 10) xs @ filter (battery_in 10 20) xs = xs"
  using assms
proof (induction xs)
  case Nil
  then show ?case by simp
next
  case (Cons x xs)
  from Cons.prems obtain v where v: "doc_battery_pct x = Some v" "v < 20"
    by (auto simp: battery_below_def split: option.splits)
  have IH: "filter (battery_below 10) xs @ filter (battery_in 10 20) xs = xs"
    using Cons by simp
  show ?case
  proof (cases "v < 10")
    case True
    then have "battery_below 10 x" "\<not> battery_in 10 20 x"
      using v by (simp_all add: battery_below_def battery_in_def)
    then show ?thesis using IH by simp
  next
    case False
    then have x: "\<not> battery_below 10 x" "battery_in 10 20 x"
      using v by (simp_all add: battery_below_def battery_in_def)
    have "\<not> battery_below 10 y" if "y \<in> set xs" for y
    proof -
      have "doc_battery_pct x \<le> doc_battery_pct y" using Cons.prems(1) that by auto
      then show ?thesis using v False
        by (cases "doc_battery_pct y") (auto simp: battery_below_def)
    qed
    then have "filter (battery_below 10) xs = []" by (simp add: filter_empty_conv)
    then show ?thesis using IH x by simp
  qed
qed

text \<open>
  Claim C6. Whenever the store answers, the low-battery endpoint succeeds with 200;
  urgent_count + high_priority_count = total_count; every urgent item has a battery
  below 10 and every high-priority item one in [10, 20); the two lists together hold
  exactly the bays whose battery is below 20, in ascending order of battery.
\<close>

theorem low_battery_partition:
  assumes "bays_coll d = Inr ds"
  shows "\<exists>r. get_low_battery_bays (Some d) = (Success r, 200)
           \<and> lb_urgent_count r + lb_high_priority_count r = lb_total_count r
           \<and> lb_urgent_count r = length (lb_urgent r)
           \<and> lb_high_priority_count r = length (lb_high_priority r)
           \<and> (\<forall>b \<in> set (lb_urgent r). \<exists>v. doc_battery_pct b = Some v \<and> v < 10)
           \<and> (\<forall>b \<in> set (lb_high_priority r). \<exists>v. doc_battery_pct b = Some v \<and> 10 \<le> v \<and> v < 20)
           \<and> mset (lb_urgent r @ lb_high_priority r) = mset (filter (battery_below 20) ds)
           \<and> sorted (map doc_battery_pct (lb_urgent r @ lb_high_priority r))"
proof -
  let ?low = "find_low_battery ds 20"
  have below: "\<forall>x \<in> set ?low. battery_below 20 x" by (simp add: find_low_battery_set)
  have some: "\<forall>b \<in> set ?low. doc_battery_pct b \<noteq> None"
  proof
    fix b assume "b \<in> set ?low"
    then have "battery_below 20 b" using below by blast
    then show "doc_battery_pct b \<noteq> None"
      by (cases "doc_battery_pct b") (simp_all add: battery_below_def)
  qed
  have u: "select_by_battery (\<lambda>v. v < 10) ?low = Inr (filter (battery_below 10) ?low)"
    unfolding select_by_battery_filter [OF some] battery_below_def ..
  have h: "select_by_battery (\<lambda>v. 10 \<le> v \<and> v < 20) ?low = Inr (filter (battery_in 10 20) ?low)"
    unfolding select_by_battery_filter [OF some] battery_in_def ..
  define r where "r = \<lparr> lb_total_count = length ?low,
      lb_urgent_count = length (filter (battery_below 10) ?low),
      lb_high_priority_count = length (filter (battery_in 10 20) ?low),
      lb_urgent = filter (battery_below 10) ?low,
      lb_high_priority = filter (battery_in 10 20) ?low,
      lb_threshold = 20 \<rparr>"
  have res: "get_low_battery_bays (Some d) = (Success r, 200)"
    using assms u h by (simp add: get_low_battery_bays_def r_def)
  have split: "lb_urgent r @ lb_high_priority r = ?low"
    unfolding r_def using sorted_split [OF find_low_battery_sorted below] by simp
  have cnt: "lb_urgent_count r + lb_high_priority_count r = lb_total_count r"
  proof -
    have "length (lb_urgent r @ lb_high_priority r) = length ?low" by (simp only: split)
    then show ?thesis by (simp add: r_def)
  qed
  have urg: "\<forall>b \<in> set (lb_urgent r). \<exists>v. doc_battery_pct b = Some v \<and> v < 10"
    by (auto simp: r_def battery_below_def split: option.splits)
  have high: "\<forall>b \<in> set (lb_high_priority r). \<exists>v. doc_battery_pct b = Some v \<and> 10 \<le> v \<and> v < 20"
    by (auto simp: r_def battery_in_def split: option.splits)
  have ms: "mset (lb_urgent r @ lb_high_priority r) = mset (filter (battery_below 20) ds)"
    by (simp only: split find_low_battery_mset)
  have so: "sorted (map doc_battery_pct (lb_urgent r @ lb_high_priority r))"
    by (simp only: split find_low_battery_sorted)
  have lens: "lb_urgent_count r = length (lb_urgent r)"
    "lb_high_priority_count r = length (lb_high_priority r)"
    by (simp_all add: r_def)
  show ?thesis using res cnt lens urg high ms so by blast
qed

text \<open>
  Claim C8. The health check answers 503 with status "unhealthy" exactly when the
  connection is absent or the ping or a count raises; otherwise it answers 200 with
  status "healthy" and the document counts of the two collections.
\<close>

theorem health_check_status:
  "((snd (health_check db now) = 503 \<and> hb_status (fst (health_check db now)) = ''unhealthy'')
      \<longleftrightarrow> unreachable db)
   \<and> (\<not> unreachable db \<longrightarrow>
        snd (health_check db now) = 200
        \<and> hb_status (fst (health_check db now)) = ''healthy''
        \<and> (\<exists>d bs es. db = Some d \<and> bays_coll d = Inr bs \<and> events_coll d = Inr es
              \<and> hb_total_bays (fst (health_check db now)) = Some (length bs)
              \<and> hb_total_events (fst (health_check db now)) = Some (length es)))"
proof (cases db)
  case None
  then show ?thesis by (simp add: health_check_def unreachable_def)
next
  case (Some d)
  show ?thesis
  proof (cases "ping d")
    case (Inl e)
    then show ?thesis using Some by (simp add: health_check_def unreachable_def)
  next
    case (Inr u)
    show ?thesis
    proof (cases "bays_coll d")
      case (Inl e)
      then show ?thesis using Some Inr
        by (simp add: health_check_def unreachable_def count_documents_def)
    next
      case bs: (Inr bs)
      show ?thesis
      proof (cases "events_coll d")
        case (Inl e)
        then show ?thesis using Some Inr bs
          by (simp add: health_check_def unreachable_def count_documents_def)
      next
        case es: (Inr es)
        then show ?thesis using Some Inr bs
          by (simp add: health_check_def unreachable_def count_documents_def)
      qed
    qed
  qed
qed

lemma db1_sorted_levels: "sort (remdups (map doc_level [doc2, doc1, doc3])) = [Some ''L1'', Some ''L2'']"
  by code_simp

lemma db1_groups:
  "map g_avg_battery (aggregate_by_level [doc2, doc1, doc3]) = [Some 0, Some 15]"
  by (simp add: aggregate_by_level_def db1_sorted_levels group_of_def mongo_avg_def
      fdiv_def to_double_zero to_double_15 doc1_def doc2_def doc3_def)

text \<open>
  Claim C2. On the small store the group of level L1 has a defined average battery,
  0, and the statistics endpoint reports \<open>avg_battery\<close> null for it: the test
  \<open>if level["avg_battery"]\<close> takes a zero average for a missing one.
\<close>

theorem zero_average_reported_null:
  "map g_avg_battery (aggregate_by_level [doc2, doc1, doc3]) = [Some 0, Some 15]
   \<and> (\<exists>st. get_stats (Some db1) ''2025-10-18T10:00:00'' = (Success st, 200)
         \<and> map ls_avg_battery (st_levels st) = [None, Some 15])"
proof -
  have r: "round_if_truthy (Some 0) = None" "round_if_truthy (Some 15) = Some 15"
    by (simp_all add: round_if_truthy_def truthy_def py_round_def round_half_even_def)
  have "map ls_avg_battery (map format_level (aggregate_by_level [doc2, doc1, doc3]))
          = [None, Some 15]"
    by (simp add: aggregate_by_level_def db1_sorted_levels group_of_def mongo_avg_def
        format_level_def fdiv_def to_double_zero to_double_15 r doc1_def doc2_def doc3_def)
  then show ?thesis
    using db1_groups by (simp add: get_stats_def db1_def count_documents_def)
qed

lemma round_if_truthy_None_iff: "round_if_truthy v = None \<longleftrightarrow> v = None \<or> v = Some 0"
  by (cases v) (simp_all add: round_if_truthy_def truthy_def)

lemma round_if_truthy_Some:
  "x \<noteq> 0 \<Longrightarrow> round_if_truthy (Some x) = Some (py_round x 1)"
  by (simp add: round_if_truthy_def truthy_def)

lemma stats_23_of_160:
  "\<exists>st. get_stats (Some \<lparr> ping = Inr (),
                              bays_coll = Inr (replicate 23 doc1 @ replicate 137 doc2),
                              events_coll = Inr [] \<rparr>) now = (Success st, 200)
        \<and> st_total st = 160 \<and> st_occupied st = 23 \<and> st_free st = 137
        \<and> st_occupancy_rate st = 1437 / 100"
  using rate_23_of_160
  by (simp add: get_stats_def count_documents_def doc1_def doc2_def)


theorem low_battery_partition_witness:
  "bays_coll db1 = Inr [doc2, doc1, doc3]
   \<and> (\<exists>r. get_low_battery_bays (Some db1) = (Success r, 200)
           \<and> lb_urgent_count r + lb_high_priority_count r = lb_total_count r
           \<and> lb_urgent_count r = length (lb_urgent r)
           \<and> lb_high_priority_count r = length (lb_high_priority r)
           \<and> (\<forall>b \<in> set (lb_urgent r). \<exists>v. doc_battery_pct b = Some v \<and> v < 10)
           \<and> (\<forall>b \<in> set (lb_high_priority r). \<exists>v. doc_battery_pct b = Some v \<and> 10 \<le> v \<and> v < 20)
           \<and> mset (lb_urgent r @ lb_high_priority r) = mset (filter (battery_below 20) [doc2, doc1, doc3])
           \<and> sorted (map doc_battery_pct (lb_urgent r @ lb_high_priority r)))"
proof (rule conjI)
  show h: "bays_coll db1 = Inr [doc2, doc1, doc3]" by (simp add: db1_def)
  show "\<exists>r. get_low_battery_bays (Some db1) = (Success r, 200)
           \<and> lb_urgent_count r + lb_high_priority_count r = lb_total_count r
           \<and> lb_urgent_count r = length (lb_urgent r)
           \<and> lb_high_priority_count r = length (lb_high_priority r)
           \<and> (\<forall>b \<in> set (lb_urgent r). \<exists>v. doc_battery_pct b = Some v \<and> v < 10)
           \<and> (\<forall>b \<in> set (lb_high_priority r). \<exists>v. doc_battery_pct b = Some v \<and> 10 \<le> v \<and> v < 20)
           \<and> mset (lb_urgent r @ lb_high_priority r) = mset (filter (battery_below 20) [doc2, doc1, doc3])
           \<and> sorted (map doc_battery_pct (lb_urgent r @ lb_high_priority r))"
    by (rule low_battery_partition [OF h])
qed

lemma db1_low_battery:
  "get_low_battery_bays (Some db1) =
     (Success \<lparr> lb_total_count = 2, lb_urgent_count = 1, lb_high_priority_count = 1,
                lb_urgent = [doc1], lb_high_priority = [doc2], lb_threshold = 20 \<rparr>, 200)"
  by (simp add: get_low_battery_bays_def db1_def find_low_battery_def doc1_def doc2_def doc3_def)

theorem health_check_status_witness:
  "\<not> unreachable (Some db1)
   \<and> health_check (Some db1) ''2025-10-18T10:00:00''
       = (\<lparr> hb_status = ''healthy'', hb_database = Some ''connected'', hb_total_bays = Some 3,
             hb_total_events = Some 0, hb_error = None, hb_timestamp = ''2025-10-18T10:00:00'' \<rparr>, 200)
   \<and> unreachable None
   \<and> snd (health_check None ''2025-10-18T10:00:00'') = 503
   \<and> hb_status (fst (health_check None ''2025-10-18T10:00:00'')) = ''unhealthy''
   \<and> unreachable (Some (db1\<lparr>ping := Inl ''ServerSelectionTimeoutError''\<rparr>))
   \<and> snd (health_check (Some (db1\<lparr>ping := Inl ''ServerSelectionTimeoutError''\<rparr>)) ''2025-10-18T10:00:00'') = 503"
proof -
  have 1: "\<not> unreachable (Some db1)"
    by (simp add: unreachable_def db1_def count_documents_def)
  have 2: "unreachable None" by (simp add: unreachable_def)
  have 3: "unreachable (Some (db1\<lparr>ping := Inl ''ServerSelectionTimeoutError''\<rparr>))"
    by (simp add: unreachable_def)
  have 4: "health_check (Some db1) ''2025-10-18T10:00:00''
       = (\<lparr> hb_status = ''healthy'', hb_database = Some ''connected'', hb_total_bays = Some 3,
             hb_total_events = Some 0, hb_error = None, hb_timestamp = ''2025-10-18T10:00:00'' \<rparr>, 200)"
    by (simp add: health_check_def db1_def count_documents_def)
  from health_check_status [of None "''2025-10-18T10:00:00''"] 2
  have 5: "snd (health_check None ''2025-10-18T10:00:00'') = 503
         \<and> hb_status (fst (health_check None ''2025-10-18T10:00:00'')) = ''unhealthy''"
    by blast
  from health_check_status [of "Some (db1\<lparr>ping := Inl ''ServerSelectionTimeoutError''\<rparr>)"
      "''2025-10-18T10:00:00''"] 3
  have 6: "snd (health_check (Some (db1\<lparr>ping := Inl ''ServerSelectionTimeoutError''\<rparr>)) ''2025-10-18T10:00:00'') = 503"
    by blast
  show ?thesis using 1 2 3 4 5 6 by blast
qed

text \<open>
  Claim C9, as stated, fails: an exception that is not a KafkaError leaves
  \<open>publish_event\<close>. Here the interrupt that stops the run loop arrives during the wait
  for the acknowledgement.
\<close>

theorem publish_event_propagates_other:
  "publish_event \<lparr> topic = ''parking-events'', the_producer = interrupted_producer \<rparr> event0
     = Inl (OtherException ''KeyboardInterrupt'')"
  by (simp add: publish_event_def interrupted_producer_def)

text \<open>
  Claim C9, amended. \<open>publish_event\<close> returns True exactly when the send and the wait
  of at most 10 seconds succeed, returns False exactly when one of them raises a
  KafkaError, and raises exactly when one of them raises an exception of another class,
  which it passes on unchanged.
\<close>

theorem publish_event_outcomes:
  "(publish_event p ev = Inr True \<longleftrightarrow>
      (\<exists>f. send (the_producer p) (topic p) ev = Inr f
            \<and> future_get (the_producer p) f 10 = Inr ()))
   \<and> (publish_event p ev = Inr False \<longleftrightarrow>
        (\<exists>m. send (the_producer p) (topic p) ev = Inl (KafkaError m)
              \<or> (\<exists>f. send (the_producer p) (topic p) ev = Inr f
                      \<and> future_get (the_producer p) f 10 = Inl (KafkaError m))))
   \<and> (\<forall>x. publish_event p ev = Inl x \<longleftrightarrow>
        (\<exists>m. x = OtherException m
              \<and> (send (the_producer p) (topic p) ev = Inl x
                  \<or> (\<exists>f. send (the_producer p) (topic p) ev = Inr f
                          \<and> future_get (the_producer p) f 10 = Inl x))))"
proof (cases "send (the_producer p) (topic p) ev")
  case (Inl x)
  then show ?thesis by (cases x) (auto simp: publish_event_def)
next
  case (Inr f)
  show ?thesis
  proof (cases "future_get (the_producer p) f 10")
    case (Inl x)
    then show ?thesis using Inr by (cases x) (auto simp: publish_event_def)
  next
    case g: (Inr u)
    then show ?thesis using Inr by (auto simp: publish_event_def)
  qed
qed

theorem publish_event_outcomes_witness:
  "publish_event \<lparr> topic = ''parking-events'', the_producer = acking_producer \<rparr> event0 = Inr True
   \<and> publish_event \<lparr> topic = ''parking-events'', the_producer = timing_out_producer \<rparr> event0
       = Inr False"
proof -
  note t = publish_event_outcomes [of "\<lparr> topic = ''parking-events'', the_producer = acking_producer \<rparr>" event0]
  note f = publish_event_outcomes [of "\<lparr> topic = ''parking-events'', the_producer = timing_out_producer \<rparr>" event0]
  have 1: "publish_event \<lparr> topic = ''parking-events'', the_producer = acking_producer \<rparr> event0 = Inr True"
    using t by (simp add: acking_producer_def)
  have 2: "publish_event \<lparr> topic = ''parking-events'', the_producer = timing_out_producer \<rparr> event0
       = Inr False"
    using f by (simp add: timing_out_producer_def)
  show ?thesis using 1 2 by (rule conjI)
qed

end
